theory Spec2Isabelle
  imports Complex_Main
begin

section \<open>Data model\<close>

text \<open>
  A cell of an observation matrix is a number or one of the two missing markers of
  pandas: the float \<open>NaN\<close> and the nullable-integer \<open>pd.NA\<close>. Both answer
  \<open>isna()\<close> with true and both are skipped by \<open>(df == 1).sum(skipna=True)\<close>.
  A row is a total lookup from column names to cells, a frame is its column list with its
  rows. Floating-point numbers of the source are modelled as exact reals throughout.
\<close>

datatype cell = Val int | NaN | NA

fun isna :: "cell \<Rightarrow> bool" where
  "isna (Val _) = False"
| "isna NaN = True"
| "isna NA = True"

type_synonym row = "string \<Rightarrow> cell"

record frame =
  columns :: "string list"
  rows :: "row list"

definition row_of :: "(string \<times> cell) list \<Rightarrow> row" where
  "row_of al c = (case map_of al c of Some v \<Rightarrow> v | None \<Rightarrow> NA)"

definition row_values :: "string list \<Rightarrow> row \<Rightarrow> cell list" where
  "row_values cols r = map r cols"

datatype error = ValueError | TypeError | ZeroDivisionError | StatError

section \<open>mdr/classification.py\<close>

subsection \<open>\<open>_to_binary\<close> and \<open>build_class_matrix\<close>\<close>

fun to_binary_cell :: "cell \<Rightarrow> cell" where
  "to_binary_cell (Val x) = Val (if x > 0 then 1 else 0)"
| "to_binary_cell c = c"

definition to_binary :: "frame \<Rightarrow> frame" where
  "to_binary df = df\<lparr>rows := map (\<lambda>r c. to_binary_cell (r c)) (rows df)\<rparr>"

definition count_eq :: "int \<Rightarrow> cell list \<Rightarrow> nat" where
  "count_eq k vals = length (filter (\<lambda>c. c = Val k) vals)"

text \<open>
  The class call of one row, for the matched drug columns \<open>present\<close> of the class:
  the series \<open>s\<close> starts as \<open>pd.NA\<close> and receives the two \<open>s.loc[...]\<close>
  assignments of the selected rule in the source's order.
\<close>

definition class_call :: "string \<Rightarrow> string list \<Rightarrow> row \<Rightarrow> cell" where
  "class_call class_rule present r =
     (let vals = map r present;
          n_drugs = length present;
          n_resistant = count_eq 1 vals;
          n_susceptible = count_eq 0 vals;
          n_tested = n_resistant + n_susceptible;
          all_tested = (n_tested = n_drugs);
          s = NA
      in if class_rule = ''any'' then
           (let any_pos = (n_resistant \<ge> 1);
                all_neg = (all_tested \<and> n_resistant = 0);
                s = (if any_pos then Val 1 else s);
                s = (if all_neg \<and> \<not> any_pos then Val 0 else s)
            in s)
         else if class_rule = ''all'' then
           (let all_pos = (all_tested \<and> n_resistant = n_drugs);
                any_neg = (all_tested \<and> n_susceptible \<ge> 1);
                s = (if all_pos then Val 1 else s);
                s = (if any_neg \<and> \<not> all_pos then Val 0 else s)
            in s)
         else if class_rule = ''majority'' then
           (let majority_pos = (n_tested > 0 \<and> real n_resistant > real n_tested / 2);
                majority_neg = (all_tested \<and> real n_resistant \<le> real n_tested / 2);
                s = (if majority_pos then Val 1 else s);
                s = (if majority_neg \<and> \<not> majority_pos then Val 0 else s)
            in s)
         else s)"

definition present_drugs :: "frame \<Rightarrow> string list \<Rightarrow> string list" where
  "present_drugs ph drugs = filter (\<lambda>d. d \<in> set (columns ph)) drugs"

text \<open>
  The loop over \<open>class_to_drugs.items()\<close>: a class with no matched column is skipped,
  every other class adds one column to \<open>out\<close>.
\<close>

fun add_classes :: "frame \<Rightarrow> string \<Rightarrow> (string \<times> string list) list \<Rightarrow> frame \<Rightarrow> frame" where
  "add_classes ph class_rule [] out = out"
| "add_classes ph class_rule ((cls, drugs) # rest) out =
     (let present = present_drugs ph drugs
      in if present = [] then add_classes ph class_rule rest out
         else add_classes ph class_rule rest
                \<lparr>columns = (if cls \<in> set (columns out) then columns out else columns out @ [cls]),
                 rows = map (\<lambda>(r, orow). orow(cls := class_call class_rule present r))
                            (zip (rows ph) (rows out))\<rparr>)"

definition build_class_matrix ::
    "frame \<Rightarrow> (string \<times> string list) list \<Rightarrow> string \<Rightarrow> error + frame" where
  "build_class_matrix pheno_df class_to_drugs class_rule =
     (if class_rule \<notin> {''any'', ''all'', ''majority''} then Inl ValueError
      else let ph = to_binary pheno_df;
               out = \<lparr>columns = [], rows = map (\<lambda>_ _. NA) (rows ph)\<rparr>
           in Inr (add_classes ph class_rule class_to_drugs out))"

subsection \<open>\<open>identify_mdr\<close>\<close>

definition min_res :: "frame \<Rightarrow> row \<Rightarrow> int" where
  "min_res class_df r = int (count_eq 1 (row_values (columns class_df) r))"

definition n_missing :: "frame \<Rightarrow> row \<Rightarrow> int" where
  "n_missing class_df r = int (length (filter isna (row_values (columns class_df) r)))"

definition max_res :: "frame \<Rightarrow> row \<Rightarrow> int" where
  "max_res class_df r = min_res class_df r + n_missing class_df r"

text \<open>
  The result series holds \<open>True\<close>, \<open>False\<close> or \<open>pd.NA\<close> (here \<open>None\<close>); it starts
  as \<open>False\<close> everywhere and receives the three masked assignments in order.
\<close>

definition identify_mdr_row :: "frame \<Rightarrow> int \<Rightarrow> row \<Rightarrow> bool option" where
  "identify_mdr_row class_df threshold r =
     (let mn = min_res class_df r;
          mx = max_res class_df r;
          out = Some False;
          out = (if mn \<ge> threshold then Some True else out);
          out = (if mx < threshold then Some False else out);
          out = (if mn < threshold \<and> mx \<ge> threshold then None else out)
      in out)"

definition identify_mdr :: "frame \<Rightarrow> int \<Rightarrow> bool option list" where
  "identify_mdr class_df threshold = map (identify_mdr_row class_df threshold) (rows class_df)"

subsection \<open>\<open>mdr_probability\<close>\<close>








definition missing_cols :: "string list \<Rightarrow> row \<Rightarrow> string list" where
  "missing_cols cols r = filter (\<lambda>c. isna (r c)) cols"



section \<open>mdr/decision_v3.py\<close>

subsection \<open>\<open>_posterior_mdr_prob\<close>\<close>

text \<open>
  \<open>float((missing_prior or {}).get(c, 0.5))\<close>: the prior of a class, 0.5 when no
  dictionary is given or the class is no key of it.
\<close>

definition prior_get :: "(string \<rightharpoonup> real) option \<Rightarrow> string \<Rightarrow> real" where
  "prior_get missing_prior c =
     (case missing_prior of None \<Rightarrow> 1/2
      | Some d \<Rightarrow> (case d c of None \<Rightarrow> 1/2 | Some p \<Rightarrow> p))"

text \<open>
  The inner loop over \<open>enumerate(missing)\<close> for one \<open>mask\<close>; the bit
  \<open>(mask >> i) & 1\<close> is \<open>(mask div 2 ^ i) mod 2\<close>.
\<close>

fun assign_loop ::
    "(string \<rightharpoonup> real) option \<Rightarrow> nat \<Rightarrow> (nat \<times> string) list \<Rightarrow> int \<times> real \<Rightarrow> int \<times> real" where
  "assign_loop missing_prior msk [] (kk, pr) = (kk, pr)"
| "assign_loop missing_prior msk ((i, c) # rest) (kk, pr) =
     (let pc = prior_get missing_prior c;
          b = (msk div 2 ^ i) mod 2
      in if b \<noteq> 0 then assign_loop missing_prior msk rest (kk + 1, pr * pc)
         else assign_loop missing_prior msk rest (kk, pr * (1 - pc)))"

definition known_pos :: "string list \<Rightarrow> row \<Rightarrow> int" where
  "known_pos cols r = int (length (filter (\<lambda>v. \<not> isna v \<and> v = Val 1) (map r cols)))"

definition posterior_mdr_prob ::
    "string list \<Rightarrow> row \<Rightarrow> int \<Rightarrow> (string \<rightharpoonup> real) option \<Rightarrow> real" where
  "posterior_mdr_prob cols r threshold missing_prior =
     (let kp = known_pos cols r;
          missing = missing_cols cols r
      in if kp \<ge> threshold then 1
         else if kp + int (length missing) < threshold then 0
         else let p = fold (\<lambda>msk p.
                        let (kk, pr) = assign_loop missing_prior msk (enumerate 0 missing) (kp, 1)
                        in if kk \<ge> threshold then p + pr else p)
                      [0..<2 ^ length missing] 0
              in min (max p 0) 1)"

text \<open>
  The enumeration as the specification words it: every assignment of the missing classes
  is a list of booleans, one per missing class; its weight is the product of the prior
  (assigned 1) or its complement (assigned 0) of each class; the weights of the
  assignments that reach the threshold are added.
\<close>

definition assignments :: "nat \<Rightarrow> bool list list" where
  "assignments m = List.n_lists m [False, True]"

fun weight :: "real list \<Rightarrow> bool list \<Rightarrow> real" where
  "weight (p # ps) (b # bs) = (if b then p else 1 - p) * weight ps bs"
| "weight _ _ = 1"

definition n_assigned :: "bool list \<Rightarrow> int" where
  "n_assigned bs = int (length (filter id bs))"

definition enumeration_sum :: "real list \<Rightarrow> int \<Rightarrow> real" where
  "enumeration_sum priors need =
     (\<Sum>bs\<leftarrow>assignments (length priors). if n_assigned bs \<ge> need then weight priors bs else 0)"


section \<open>mdr/classification.py, continued\<close>

subsection \<open>\<open>bayesian_prevalence\<close>\<close>

text \<open>
  Python's \<open>round(x, ndigits)\<close>: the closest multiple of \<open>10^-ndigits\<close>,
  the even one when two are equally close.
\<close>

definition round_half_even :: "real \<Rightarrow> int" where
  "round_half_even y =
     (let f = \<lfloor>y\<rfloor>;
          d = y - of_int f
      in if d < 1/2 then f else if d > 1/2 then f + 1 else if even f then f else f + 1)"

definition py_round :: "real \<Rightarrow> nat \<Rightarrow> real" where
  "py_round x ndigits = of_int (round_half_even (x * 10 ^ ndigits)) / 10 ^ ndigits"



section \<open>network/hypergraph.py\<close>

subsection \<open>\<open>extract_hyperedges\<close>\<close>

text \<open>
  A row of the result. The display column \<open>Hyperedge\<close>, the sorted members of
  \<open>_set\<close> joined by commas, is a function of \<open>_set\<close> and is left out.
\<close>

record hyperedge =
  hset :: "string set"
  Size :: nat
  Count :: nat
  Support :: real









subsection \<open>\<open>hypergraph_centrality\<close>\<close>

record centrality_row =
  Class :: string
  Degree :: nat
  Weighted_Degree :: real
  Size_Weighted :: real

text \<open>
  The returned table: its rows, and the three normalised columns, each of which is
  \<open>None\<close> when the table has no such column.
\<close>

record centrality =
  crows :: "centrality_row list"
  Degree_Norm :: "real list option"
  Weighted_Degree_Norm :: "real list option"
  Size_Weighted_Norm :: "real list option"

text \<open>
  One hyperedge row of the loop over \<open>hedges_df.iterrows()\<close>: every member of
  \<open>_set\<close> that is a key of the dictionaries has its three entries increased.
\<close>

definition centrality_step ::
    "string list \<Rightarrow> hyperedge \<Rightarrow> (string \<Rightarrow> nat) \<times> (string \<Rightarrow> real) \<times> (string \<Rightarrow> real)
       \<Rightarrow> (string \<Rightarrow> nat) \<times> (string \<Rightarrow> real) \<times> (string \<Rightarrow> real)" where
  "centrality_step all_classes r acc =
     (case acc of (deg, wd, swd) \<Rightarrow>
        ((\<lambda>m. if m \<in> hset r \<and> m \<in> set all_classes then deg m + 1 else deg m),
         (\<lambda>m. if m \<in> hset r \<and> m \<in> set all_classes then wd m + Support r else wd m),
         (\<lambda>m. if m \<in> hset r \<and> m \<in> set all_classes
              then swd m + Support r * real (Size r) else swd m)))"

text \<open>
  \<open>mx = df[col].max(); if mx > 0: df[col + "_Norm"] = (df[col] / mx).round(4)\<close>,
  for a column with at least one entry. There is no \<open>else\<close>.
\<close>

definition norm_column :: "real list \<Rightarrow> real list option" where
  "norm_column xs =
     (let mx = Max (set xs)
      in if mx > 0 then Some (map (\<lambda>x. py_round (x / mx) 4) xs) else None)"

text \<open>
  The sort by descending \<open>Size_Weighted\<close> is modelled as a stable sort; pandas leaves
  the order of ties open.
\<close>

definition hypergraph_centrality :: "hyperedge list \<Rightarrow> string list \<Rightarrow> centrality" where
  "hypergraph_centrality hedges_df all_classes =
     (if all_classes = [] then
        \<lparr>crows = [], Degree_Norm = Some [], Weighted_Degree_Norm = Some [],
         Size_Weighted_Norm = Some []\<rparr>
      else
        case fold (centrality_step all_classes) hedges_df ((\<lambda>c. 0), (\<lambda>c. 0), (\<lambda>c. 0)) of
          (deg, wd, swd) \<Rightarrow>
            let rws = map (\<lambda>c. \<lparr>Class = c, Degree = deg c,
                                  Weighted_Degree = py_round (wd c) 4,
                                  Size_Weighted = py_round (swd c) 4\<rparr>) all_classes;
                df = sort_key (\<lambda>r. - Size_Weighted r) rws
            in \<lparr>crows = df,
                Degree_Norm = norm_column (map (\<lambda>r. real (Degree r)) df),
                Weighted_Degree_Norm = norm_column (map Weighted_Degree df),
                Size_Weighted_Norm = norm_column (map Size_Weighted df)\<rparr>)"

section \<open>causal/discovery.py\<close>

subsection \<open>\<open>_ci_test\<close>\<close>

text \<open>
  The three SciPy functions are parameters of the model: the p-value of
  \<open>fisher_exact(tab)\<close>, the p-value of \<open>chi2_contingency(tab)\<close> (\<open>None\<close> when
  it raises) and \<open>chi2.cdf(stat, 1)\<close>.
\<close>

record stats =
  fisher_exact :: "nat list list \<Rightarrow> real"
  chi2_contingency :: "nat list list \<Rightarrow> real option"
  chi2_cdf :: "real \<Rightarrow> real"

text \<open>
  \<open>pd.crosstab(df[i], df[j])\<close>: the rows with a missing cell in either column are
  dropped, the table has one row per observed value of \<open>i\<close> and one column per
  observed value of \<open>j\<close>, both in increasing order, and holds the counts.
\<close>

definition obs_pairs :: "row list \<Rightarrow> string \<Rightarrow> string \<Rightarrow> (int \<times> int) list" where
  "obs_pairs rs i j =
     concat (map (\<lambda>r. case r i of
                         Val x \<Rightarrow> (case r j of Val y \<Rightarrow> [(x, y)] | _ \<Rightarrow> [])
                       | _ \<Rightarrow> []) rs)"

definition crosstab :: "row list \<Rightarrow> string \<Rightarrow> string \<Rightarrow> nat list list" where
  "crosstab rs i j =
     (let ps = obs_pairs rs i j;
          li = sort (remdups (map fst ps));
          lj = sort (remdups (map snd ps))
      in map (\<lambda>a. map (\<lambda>b. count_list ps (a, b)) lj) li)"

text \<open>\<open>tab.shape == (2, 2)\<close>, and the four cells of such a table.\<close>

fun cells_2x2 :: "nat list list \<Rightarrow> (nat \<times> nat \<times> nat \<times> nat) option" where
  "cells_2x2 [[a, b], [c, d]] = Some (a, b, c, d)"
| "cells_2x2 _ = None"

text \<open>One stratum of the Cochran-Mantel-Haenszel loop.\<close>

definition cmh_step :: "nat list list \<Rightarrow> real \<times> real \<Rightarrow> real \<times> real" where
  "cmh_step tab acc =
     (case acc of (num, den) \<Rightarrow>
        (case cells_2x2 tab of
           None \<Rightarrow> (num, den)
         | Some (a, b, c, d) \<Rightarrow>
             let n = a + b + c + d
             in if n < 2 then (num, den)
                else (num + (real a - real (a + b) * real (a + c) / real n),
                      den + real (a + b) * real (c + d) * real (a + c) * real (b + d)
                              / ((real n)\<^sup>2 * (real n - 1)))))"

text \<open>
  \<open>df.groupby(df[S].apply(tuple, axis=1))\<close>: one stratum for each joint value of the
  conditioning columns.
\<close>

definition strata :: "row list \<Rightarrow> string list \<Rightarrow> row list list" where
  "strata df S = map (\<lambda>k. filter (\<lambda>r. map r S = k) df) (remdups (map (\<lambda>r. map r S) df))"

definition cmh_sums :: "row list \<Rightarrow> string \<Rightarrow> string \<Rightarrow> string list \<Rightarrow> real \<times> real" where
  "cmh_sums df i j S = fold cmh_step (map (\<lambda>st. crosstab st i j) (strata df S)) (0, 0)"

definition expected_2x2 :: "nat \<Rightarrow> nat \<Rightarrow> nat \<Rightarrow> nat \<Rightarrow> real list" where
  "expected_2x2 a b c d =
     (let n = real (a + b + c + d)
      in [real (a + b) * real (a + c) / n, real (a + b) * real (b + d) / n,
          real (c + d) * real (a + c) / n, real (c + d) * real (b + d) / n])"

definition ci_test ::
    "stats \<Rightarrow> row list \<Rightarrow> string \<Rightarrow> string \<Rightarrow> string list \<Rightarrow> real \<Rightarrow> error + (bool \<times> real)" where
  "ci_test sp df i j S alpha =
     (if S = [] then
        (let tab = crosstab df i j
         in case cells_2x2 tab of
              Some (a, b, c, d) \<Rightarrow>
                if \<exists>e\<in>set (expected_2x2 a b c d). e < 5
                then (let p = fisher_exact sp tab in Inr (p > alpha, p))
                else (case chi2_contingency sp tab of
                        None \<Rightarrow> Inl StatError
                      | Some p \<Rightarrow> Inr (p > alpha, p))
            | None \<Rightarrow>
                (let p = (case chi2_contingency sp tab of None \<Rightarrow> 1 | Some p \<Rightarrow> p)
                 in Inr (p > alpha, p)))
      else
        (case cmh_sums df i j S of (num, den) \<Rightarrow>
           if den \<le> 0 then Inr (True, 1)
           else (let stat = num\<^sup>2 / den;
                     p = 1 - chi2_cdf sp stat
                 in Inr (p > alpha, p))))"

subsection \<open>The undirected graph of networkx\<close>

text \<open>
  \<open>nx.Graph\<close> keeps, for every node in insertion order, its neighbours in insertion
  order (a dictionary of dictionaries).
\<close>

type_synonym graph = "(string \<times> string list) list"

definition add_node :: "string \<Rightarrow> graph \<Rightarrow> graph" where
  "add_node n G = (if n \<in> fst ` set G then G else G @ [(n, [])])"

definition add_nbr :: "string \<Rightarrow> string \<Rightarrow> graph \<Rightarrow> graph" where
  "add_nbr u v G = map (\<lambda>(n, ns). if n = u \<and> v \<notin> set ns then (n, ns @ [v]) else (n, ns)) G"

definition add_edge :: "string \<Rightarrow> string \<Rightarrow> graph \<Rightarrow> graph" where
  "add_edge u v G = add_nbr v u (add_nbr u v (add_node v (add_node u G)))"

definition neighbors :: "graph \<Rightarrow> string \<Rightarrow> string list" where
  "neighbors G u = (case map_of G u of Some ns \<Rightarrow> ns | None \<Rightarrow> [])"

definition has_edge :: "graph \<Rightarrow> string \<Rightarrow> string \<Rightarrow> bool" where
  "has_edge G u v = (v \<in> set (neighbors G u))"

definition remove_edge :: "string \<Rightarrow> string \<Rightarrow> graph \<Rightarrow> graph" where
  "remove_edge u v G =
     map (\<lambda>(n, ns). if n = u then (n, removeAll v ns)
                     else if n = v then (n, removeAll u ns) else (n, ns)) G"

text \<open>\<open>G.edges()\<close>: every edge once, reported from the endpoint that comes first.\<close>

fun edges_from :: "graph \<Rightarrow> string list \<Rightarrow> (string \<times> string) list" where
  "edges_from [] seen = []"
| "edges_from ((n, ns) # rest) seen =
     map (\<lambda>nbr. (n, nbr)) (filter (\<lambda>nbr. nbr \<notin> set seen) ns) @ edges_from rest (n # seen)"

definition edges :: "graph \<Rightarrow> (string \<times> string) list" where
  "edges G = edges_from G []"

text \<open>\<open>itertools.combinations(xs, k)\<close>, in its order.\<close>

fun combinations :: "'a list \<Rightarrow> nat \<Rightarrow> 'a list list" where
  "combinations xs 0 = [[]]"
| "combinations [] (Suc k) = []"
| "combinations (x # xs) (Suc k) = map ((#) x) (combinations xs k) @ combinations xs (Suc k)"

subsection \<open>\<open>pc_skeleton\<close>\<close>

text \<open>
  \<open>nbrs = list(set(G.neighbors(u)) | set(G.neighbors(v)) - {u, v})\<close>. In Python
  \<open>-\<close> binds tighter than \<open>|\<close>, so \<open>{u, v}\<close> is taken out of the
  neighbours of \<open>v\<close> only. The order in which \<open>list\<close> reads a set of strings
  depends on the string hashes of the running process; it is the parameter
  \<open>set_iter\<close>, a rearrangement of the members.
\<close>

definition cond_pool :: "(string list \<Rightarrow> string list) \<Rightarrow> graph \<Rightarrow> string \<Rightarrow> string \<Rightarrow> string list" where
  "cond_pool set_iter G u v =
     set_iter (remdups (neighbors G u @ filter (\<lambda>x. x \<notin> {u, v}) (neighbors G v)))"

record detail =
  Node1 :: string
  Node2 :: string
  Removed :: bool
  Cond_Set :: string
  Pval :: real
  Cond_Size :: int

fun str_join :: "string \<Rightarrow> string list \<Rightarrow> string" where
  "str_join s [] = []"
| "str_join s [x] = x"
| "str_join s (x # y # ys) = x @ s @ str_join s (y # ys)"

text \<open>The two signs of the column \<open>Cond_Set\<close>, as their UTF-8 bytes.\<close>

definition empty_set_sign :: string where
  "empty_set_sign = [CHR 0xE2, CHR 0x88, CHR 0x85]"

definition dash_sign :: string where
  "dash_sign = [CHR 0xE2, CHR 0x80, CHR 0x94]"

text \<open>A loop whose body may raise: the first error ends it.\<close>

fun foldE :: "('a \<Rightarrow> 's \<Rightarrow> error + 's) \<Rightarrow> 'a list \<Rightarrow> 's \<Rightarrow> error + 's" where
  "foldE f [] acc = Inr acc"
| "foldE f (x # xs) acc = (case f x acc of Inl e \<Rightarrow> Inl e | Inr acc' \<Rightarrow> foldE f xs acc')"

text \<open>
  \<open>for S in combinations(nbrs, sz)\<close> up to its \<open>break\<close>: the first subset that the
  test declares independent, with its p-value; \<open>None\<close> when the loop ends without one.
\<close>

fun first_independent ::
    "(string list \<Rightarrow> error + (bool \<times> real)) \<Rightarrow> string list list \<Rightarrow> error + (string list \<times> real) option" where
  "first_independent test [] = Inr None"
| "first_independent test (S # rest) =
     (case test S of
        Inl e \<Rightarrow> Inl e
      | Inr (indep, p) \<Rightarrow> if indep then Inr (Some (S, p)) else first_independent test rest)"

type_synonym sepsets = "(string \<times> string) \<rightharpoonup> string list"

type_synonym scan_state = "(string \<times> string) list \<times> sepsets \<times> detail list"

definition scan_edge ::
    "stats \<Rightarrow> (string list \<Rightarrow> string list) \<Rightarrow> row list \<Rightarrow> real \<Rightarrow> graph \<Rightarrow> nat
       \<Rightarrow> string \<times> string \<Rightarrow> scan_state \<Rightarrow> error + scan_state" where
  "scan_edge sp set_iter df alpha G sz e acc =
     (case e of (u, v) \<Rightarrow> case acc of (rm, sep, details) \<Rightarrow>
        let nbrs = cond_pool set_iter G u v
        in if length nbrs < sz then Inr (rm, sep, details)
           else case first_independent (\<lambda>S. ci_test sp df u v S alpha) (combinations nbrs sz) of
                  Inl err \<Rightarrow> Inl err
                | Inr (Some (S, p)) \<Rightarrow>
                    Inr (rm @ [(u, v)], sep((u, v) \<mapsto> S, (v, u) \<mapsto> S),
                         details @ [\<lparr>Node1 = u, Node2 = v, Removed = True,
                                      Cond_Set = (if S \<noteq> [] then str_join '','' S else empty_set_sign),
                                      Pval = py_round p 4, Cond_Size = int sz\<rparr>])
                | Inr None \<Rightarrow>
                    if sz = 0 then
                      (case ci_test sp df u v [] alpha of
                         Inl err \<Rightarrow> Inl err
                       | Inr (indep, p) \<Rightarrow>
                           Inr (rm, sep,
                                details @ [\<lparr>Node1 = u, Node2 = v, Removed = False,
                                             Cond_Set = dash_sign, Pval = py_round p 4,
                                             Cond_Size = - 1\<rparr>]))
                    else Inr (rm, sep, details))"

text \<open>
  One conditioning-set size: the scan of the snapshot \<open>list(G.edges())\<close>, then the
  removal of the marked edges.
\<close>

definition size_phase ::
    "stats \<Rightarrow> (string list \<Rightarrow> string list) \<Rightarrow> row list \<Rightarrow> real \<Rightarrow> nat
       \<Rightarrow> graph \<times> sepsets \<times> detail list \<Rightarrow> error + graph \<times> sepsets \<times> detail list" where
  "size_phase sp set_iter df alpha sz acc =
     (case acc of (G, sep, details) \<Rightarrow>
        case foldE (scan_edge sp set_iter df alpha G sz) (edges G) ([], sep, details) of
          Inl err \<Rightarrow> Inl err
        | Inr (rm, sep', details') \<Rightarrow>
            Inr (fold (\<lambda>(u, v) G. if has_edge G u v then remove_edge u v G else G) rm G,
                 sep', details'))"

text \<open>The directed graph that is returned: its nodes and its arcs.\<close>

record digraph =
  nodes :: "string list"
  arcs :: "(string \<times> string) list"

definition add_arc :: "string \<times> string \<Rightarrow> (string \<times> string) list \<Rightarrow> (string \<times> string) list" where
  "add_arc a as = (if a \<in> set as then as else as @ [a])"

definition orient ::
    "graph \<Rightarrow> sepsets \<Rightarrow> string \<Rightarrow> (string \<times> string) list \<Rightarrow> (string \<times> string) list" where
  "orient G sep k as =
     fold (\<lambda>pair as.
             case pair of
               [i, j] \<Rightarrow>
                 if \<not> has_edge G i j
                    \<and> k \<notin> set (case sep (i, j) of Some S \<Rightarrow> S | None \<Rightarrow> [])
                 then filter (\<lambda>a. a \<noteq> (k, i) \<and> a \<noteq> (k, j)) as
                 else as
             | _ \<Rightarrow> as)
          (combinations (neighbors G k) 2) as"

definition complete_graph :: "string list \<Rightarrow> graph" where
  "complete_graph features =
     fold (\<lambda>pair G. case pair of [u, v] \<Rightarrow> add_edge u v G | _ \<Rightarrow> G)
          (combinations features 2) (fold add_node features [])"

definition pc_skeleton ::
    "stats \<Rightarrow> (string list \<Rightarrow> string list) \<Rightarrow> row list \<Rightarrow> string list \<Rightarrow> real \<Rightarrow> int
       \<Rightarrow> error + digraph \<times> detail list" where
  "pc_skeleton sp set_iter df features alpha max_cond =
     (case foldE (size_phase sp set_iter df alpha) [0..<nat (max_cond + 1)]
             (complete_graph features, Map.empty, []) of
        Inl err \<Rightarrow> Inl err
      | Inr (G, sep, details) \<Rightarrow>
          let DG = fold (\<lambda>(u, v) as. add_arc (v, u) (add_arc (u, v) as)) (edges G) [];
              DG = fold (orient G sep) (map fst G) DG
          in Inr (\<lparr>nodes = map fst G, arcs = DG\<rparr>, details))"

section \<open>Example data\<close>

text \<open>Small concrete inputs on which the definitions are run.\<close>

definition example_class_df :: frame where
  "example_class_df =
     \<lparr>columns = [''Pen'', ''Tet'', ''Mac''],
      rows = [row_of [(''Pen'', Val 1), (''Tet'', Val 1), (''Mac'', NA)],
              row_of [(''Pen'', Val 0), (''Tet'', Val 1), (''Mac'', NA)],
              row_of [(''Pen'', Val 0), (''Tet'', Val 0), (''Mac'', Val 1)]]\<rparr>"

definition example_pheno_df :: frame where
  "example_pheno_df =
     \<lparr>columns = [''AMP'', ''AMX'', ''TET''],
      rows = [row_of [(''AMP'', Val 1), (''AMX'', NA), (''TET'', Val 0)],
              row_of [(''AMP'', Val 0), (''AMX'', Val 0), (''TET'', NA)]]\<rparr>"

definition example_row :: row where
  "example_row = row_of [(''Pen'', Val 1), (''Tet'', NA), (''Mac'', NaN)]"

definition example_prior :: "string \<rightharpoonup> real" where
  "example_prior = [''Pen'' \<mapsto> 4/5, ''Tet'' \<mapsto> 3/10]"



text \<open>
  Eight isolates with three identical indicator columns, four susceptible and four
  resistant to everything.
\<close>

definition coresist_rows :: "row list" where
  "coresist_rows =
     replicate 4 (row_of [(''A'', Val 0), (''B'', Val 0), (''C'', Val 0)])
     @ replicate 4 (row_of [(''A'', Val 1), (''B'', Val 1), (''C'', Val 1)])"

text \<open>
  Values for the SciPy parameters on which the definitions are run. The two-sided Fisher
  p-value of the table \<open>[[4, 0], [0, 4]]\<close> is \<open>2 / binomial(8, 4) = 1/35\<close>; no
  other value of the three functions is used by the runs below.
\<close>

definition scipy_example :: stats where
  "scipy_example =
     \<lparr>fisher_exact = (\<lambda>tab. if tab = [[4, 0], [0, 4]] then 1/35 else 1),
      chi2_contingency = (\<lambda>tab. Some 1),
      chi2_cdf = (\<lambda>x. 0)\<rparr>"


definition removal_row :: "string \<Rightarrow> string \<Rightarrow> string \<Rightarrow> detail" where
  "removal_row u v c =
     \<lparr>Node1 = u, Node2 = v, Removed = True, Cond_Set = c, Pval = 1, Cond_Size = 1\<rparr>"

section \<open>Verified properties\<close>

subsection \<open>Class aggregator and MDR indicator\<close>

lemma min_res_le_max_res: "min_res class_df r \<le> max_res class_df r"
  by (simp add: max_res_def n_missing_def)

lemma identify_mdr_row_cases:
  "identify_mdr_row class_df t r =
     (if min_res class_df r \<ge> t then Some True
      else if max_res class_df r < t then Some False else None)"
  using min_res_le_max_res [of class_df r]
  by (auto simp: identify_mdr_row_def Let_def)

text \<open>
  Claim C10. \<open>identify_mdr\<close> gives every row exactly one of True, False and NA:
  True iff the count of classes known resistant reaches the threshold, False iff that
  count plus the number of missing class calls stays below the threshold, NA iff the
  threshold lies between the two; so a row whose known-resistant count meets the
  threshold is never labelled False.
\<close>

theorem identify_mdr_trichotomy:
  assumes "i < length (rows class_df)"
  shows "length (identify_mdr class_df t) = length (rows class_df)
    \<and> (identify_mdr class_df t ! i = Some True
          \<longleftrightarrow> min_res class_df (rows class_df ! i) \<ge> t)
    \<and> (identify_mdr class_df t ! i = Some False
          \<longleftrightarrow> max_res class_df (rows class_df ! i) < t)
    \<and> (identify_mdr class_df t ! i = None
          \<longleftrightarrow> min_res class_df (rows class_df ! i) < t \<and> t \<le> max_res class_df (rows class_df ! i))
    \<and> (min_res class_df (rows class_df ! i) \<ge> t \<longrightarrow> identify_mdr class_df t ! i \<noteq> Some False)"
  using assms min_res_le_max_res [of class_df "rows class_df ! i"]
  by (auto simp: identify_mdr_def identify_mdr_row_cases)

theorem identify_mdr_trichotomy_witness:
  "(0::nat) < length (rows example_class_df)
    \<and> identify_mdr example_class_df 2 = [Some True, None, Some False]
    \<and> min_res example_class_df (rows example_class_df ! 0) = 2
    \<and> max_res example_class_df (rows example_class_df ! 0) = 3"
  using identify_mdr_trichotomy [of 0 example_class_df 2]
  by (simp add: example_class_df_def identify_mdr_def identify_mdr_row_def min_res_def
      max_res_def n_missing_def count_eq_def row_values_def row_of_def)

lemma add_classes_length:
  "length (rows out) = length (rows ph) \<Longrightarrow>
   length (rows (add_classes ph class_rule c2d out)) = length (rows ph)"
  by (induction ph class_rule c2d out rule: add_classes.induct) (auto simp: Let_def)

lemma add_classes_other:
  "cls \<notin> fst ` set c2d \<Longrightarrow> i < length (rows ph) \<Longrightarrow> length (rows out) = length (rows ph) \<Longrightarrow>
   (rows (add_classes ph class_rule c2d out) ! i) cls = (rows out ! i) cls"
  by (induction ph class_rule c2d out rule: add_classes.induct) (auto simp: Let_def)

lemma add_classes_columns_mono:
  "cls \<in> set (columns out) \<Longrightarrow> cls \<in> set (columns (add_classes ph class_rule c2d out))"
  by (induction ph class_rule c2d out rule: add_classes.induct) (auto simp: Let_def)

lemma add_classes_value:
  "distinct (map fst c2d) \<Longrightarrow> (cls, drugs) \<in> set c2d \<Longrightarrow> present_drugs ph drugs \<noteq> [] \<Longrightarrow>
   i < length (rows ph) \<Longrightarrow> length (rows out) = length (rows ph) \<Longrightarrow>
   (rows (add_classes ph class_rule c2d out) ! i) cls
       = class_call class_rule (present_drugs ph drugs) (rows ph ! i)
   \<and> cls \<in> set (columns (add_classes ph class_rule c2d out))"
proof (induction ph class_rule c2d out rule: add_classes.induct)
  case (1 ph class_rule out)
  then show ?case by simp
next
  case (2 ph class_rule c ds rest out)
  show ?case
  proof (cases "(cls, drugs) = (c, ds)")
    case True
    let ?out' = "\<lparr>columns = (if c \<in> set (columns out) then columns out else columns out @ [c]),
                 rows = map (\<lambda>(r, orow). orow(c := class_call class_rule (present_drugs ph ds) r))
                            (zip (rows ph) (rows out))\<rparr>"
    from True "2.prems" have notin: "cls \<notin> fst ` set rest" by auto
    have len: "length (rows ?out') = length (rows ph)" using "2.prems" by simp
    have "(rows (add_classes ph class_rule rest ?out') ! i) cls = (rows ?out' ! i) cls"
      using add_classes_other [OF notin "2.prems"(4) len] .
    moreover have "(rows ?out' ! i) cls = class_call class_rule (present_drugs ph drugs) (rows ph ! i)"
      using True "2.prems" by simp
    moreover have "cls \<in> set (columns (add_classes ph class_rule rest ?out'))"
      using True by (intro add_classes_columns_mono) simp
    ultimately show ?thesis using True "2.prems"(3) by (simp add: Let_def)
  next
    case False
    with "2.prems" have mem: "(cls, drugs) \<in> set rest" and dist: "distinct (map fst rest)" by auto
    show ?thesis
    proof (cases "present_drugs ph ds = []")
      case True
      then show ?thesis using "2.IH"(1) [OF refl True dist mem "2.prems"(3,4,5)] by simp
    next
      case ne: False
      show ?thesis
        using "2.IH"(2) [OF refl ne dist mem "2.prems"(3,4)] "2.prems"(5) ne
        by (simp add: Let_def)
    qed
  qed
qed

lemma class_call_any:
  "class_call ''any'' present r =
     (if \<exists>d\<in>set present. r d = Val 1 then Val 1
      else if \<forall>d\<in>set present. r d = Val 0 then Val 0 else NA)"
proof -
  have pos: "(count_eq 1 (map r present) \<ge> 1) = (\<exists>d\<in>set present. r d = Val 1)"
    by (induction present) (auto simp: count_eq_def)
  have le: "count_eq 0 (map r present) \<le> length present"
    by (simp add: count_eq_def order_trans [OF length_filter_le])
  have zero: "(count_eq 0 (map r present) = length present) = (\<forall>d\<in>set present. r d = Val 0)"
  proof -
    have "(length (filter (\<lambda>c. c = Val 0) xs) = length xs) = (\<forall>c\<in>set xs. c = Val 0)"
      for xs :: "cell list"
      by (induction xs) (auto simp: le_imp_less_Suc [OF length_filter_le] less_imp_neq)
    from this [of "map r present"] show ?thesis by (simp add: count_eq_def)
  qed
  have none: "\<not> (\<exists>d\<in>set present. r d = Val 1) \<Longrightarrow> count_eq 1 (map r present) = 0"
    using pos by auto
  show ?thesis
    using pos zero none by (auto simp: class_call_def Let_def)
qed

text \<open>
  Claim C3. Under the rule \<open>any\<close>, \<open>build_class_matrix\<close> succeeds and the call of
  a class with matched drug columns is, for every row of the coerced matrix: 1 whenever
  at least one matched drug equals 1, whatever the other drugs hold (missing ones
  included); 0 exactly when every matched drug was tested (holds 0 or 1) and none is
  resistant; and missing in every other case. The drugs of a class are its matched
  columns: names of the map that are no column of the matrix are ignored.
  The class map is a dictionary, so its keys are pairwise distinct.
\<close>

theorem build_class_matrix_any:
  assumes "distinct (map fst class_to_drugs)"
    and "(cls, drugs) \<in> set class_to_drugs"
    and "present_drugs pheno_df drugs \<noteq> []"
    and "i < length (rows pheno_df)"
  shows "\<exists>out. build_class_matrix pheno_df class_to_drugs ''any'' = Inr out
    \<and> cls \<in> set (columns out) \<and> length (rows out) = length (rows pheno_df)
    \<and> (let r = rows (to_binary pheno_df) ! i;
            present = present_drugs pheno_df drugs;
            v = (rows out ! i) cls;
            some_resistant = (\<exists>d\<in>set present. r d = Val 1);
            all_tested = (\<forall>d\<in>set present. r d = Val 0 \<or> r d = Val 1)
        in (some_resistant \<longrightarrow> v = Val 1)
         \<and> (v = Val 1 \<longrightarrow> some_resistant)
         \<and> (v = Val 0 \<longleftrightarrow> all_tested \<and> \<not> some_resistant)
         \<and> (v = NA \<longleftrightarrow> \<not> some_resistant \<and> \<not> all_tested)
         \<and> v \<in> {Val 0, Val 1, NA})"
proof -
  let ?ph = "to_binary pheno_df"
  let ?init = "\<lparr>columns = [], rows = map (\<lambda>_ _. NA) (rows ?ph)\<rparr>"
  let ?out = "add_classes ?ph ''any'' class_to_drugs ?init"
  have pres: "present_drugs ?ph drugs = present_drugs pheno_df drugs"
    by (simp add: present_drugs_def to_binary_def)
  have len0: "length (rows ?init) = length (rows ?ph)" by simp
  have i: "i < length (rows ?ph)" using assms(4) by (simp add: to_binary_def)
  have ne: "present_drugs ?ph drugs \<noteq> []" using assms(3) pres by simp
  have val: "(rows ?out ! i) cls = class_call ''any'' (present_drugs pheno_df drugs) (rows ?ph ! i)"
    and col: "cls \<in> set (columns ?out)"
    using add_classes_value [OF assms(1,2) ne i len0, of "''any''"] pres by simp_all
  have "length (rows ?ph) = length (rows pheno_df)" by (simp add: to_binary_def)
  then have len: "length (rows ?out) = length (rows pheno_df)"
    using add_classes_length [OF len0, of "''any''" class_to_drugs] by (simp only:)
  have run: "build_class_matrix pheno_df class_to_drugs ''any'' = Inr ?out"
    by (simp add: build_class_matrix_def Let_def)
  show ?thesis
    apply (rule exI [of _ ?out])
    apply (simp only: run col len val class_call_any Let_def)
    apply auto
    done
qed

theorem build_class_matrix_any_witness:
  "distinct (map fst [(''Pen'', [''AMP'', ''AMX'']), (''Tet'', [''TET'', ''DOX''])])
   \<and> (''Pen'', [''AMP'', ''AMX'']) \<in> set [(''Pen'', [''AMP'', ''AMX'']), (''Tet'', [''TET'', ''DOX''])]
   \<and> present_drugs example_pheno_df [''AMP'', ''AMX''] = [''AMP'', ''AMX'']
   \<and> (0::nat) < length (rows example_pheno_df)
   \<and> (rows (to_binary example_pheno_df) ! 0) ''AMP'' = Val 1
   \<and> (rows (to_binary example_pheno_df) ! 0) ''AMX'' = NA
   \<and> (\<exists>out. build_class_matrix example_pheno_df
                [(''Pen'', [''AMP'', ''AMX'']), (''Tet'', [''TET'', ''DOX''])] ''any'' = Inr out
             \<and> (rows out ! 0) ''Pen'' = Val 1)"
  using build_class_matrix_any [of "[(''Pen'', [''AMP'', ''AMX'']), (''Tet'', [''TET'', ''DOX''])]"
      "''Pen''" "[''AMP'', ''AMX'']" example_pheno_df 0]
  by (auto simp: example_pheno_df_def present_drugs_def to_binary_def row_of_def Let_def)

subsection \<open>Assignments of the missing classes\<close>

lemma sum_list_concat_map:
  fixes g :: "'a \<Rightarrow> real list"
  shows "sum_list (concat (map g xs)) = (\<Sum>x\<leftarrow>xs. sum_list (g x))"
  by (induction xs) simp_all

lemma assignments_Suc_sum:
  fixes f :: "bool list \<Rightarrow> real"
  shows "(\<Sum>bs\<leftarrow>assignments (Suc m). f bs) = (\<Sum>bs\<leftarrow>assignments m. f (False # bs) + f (True # bs))"
  by (simp add: assignments_def map_concat sum_list_concat_map comp_def)

lemma assignments_facts:
  "length (assignments m) = 2 ^ m" "distinct (assignments m)"
  "set (assignments m) = {bs. length bs = m}"
proof -
  show "length (assignments m) = 2 ^ m"
    by (simp add: assignments_def length_n_lists numeral_2_eq_2)
  show "distinct (assignments m)"
    by (simp add: assignments_def distinct_n_lists)
  have "set bs \<subseteq> {False, True}" for bs :: "bool list" by auto
  then show "set (assignments m) = {bs. length bs = m}"
    by (simp add: assignments_def set_n_lists)
qed

lemma n_assigned_Cons [simp]:
  "n_assigned (False # bs) = n_assigned bs" "n_assigned (True # bs) = n_assigned bs + 1"
  by (simp_all add: n_assigned_def)

lemma n_assigned_bounds: "0 \<le> n_assigned bs" "n_assigned bs \<le> int (length bs)"
  by (simp_all add: n_assigned_def)

lemma weight_nonneg:
  "\<forall>p\<in>set ps. 0 \<le> p \<and> p \<le> 1 \<Longrightarrow> 0 \<le> weight ps bs"
  by (induction ps bs rule: weight.induct) auto

lemma weight_total: "(\<Sum>bs\<leftarrow>assignments (length ps). weight ps bs) = 1"
proof (induction ps)
  case Nil
  then show ?case by (simp add: assignments_def)
next
  case (Cons p ps)
  have "(\<Sum>bs\<leftarrow>assignments (length (p # ps)). weight (p # ps) bs)
          = (\<Sum>bs\<leftarrow>assignments (length ps). weight ps bs)"
    by (simp add: assignments_Suc_sum algebra_simps flip: distrib_right)
  then show ?case using Cons by simp
qed

lemma enumeration_sum_Nil: "enumeration_sum [] j = (if j \<le> 0 then 1 else 0)"
  by (simp add: enumeration_sum_def assignments_def n_assigned_def)

lemma enumeration_sum_Cons:
  "enumeration_sum (p # ps) j = (1 - p) * enumeration_sum ps j + p * enumeration_sum ps (j - 1)"
proof -
  have "enumeration_sum (p # ps) j
          = (\<Sum>bs\<leftarrow>assignments (length ps).
               (1 - p) * (if j \<le> n_assigned bs then weight ps bs else 0)
               + p * (if j - 1 \<le> n_assigned bs then weight ps bs else 0))"
    unfolding enumeration_sum_def length_Cons assignments_Suc_sum
    by (intro arg_cong [where f = sum_list] map_cong refl) auto
  then show ?thesis
    by (simp add: enumeration_sum_def sum_list_addf sum_list_const_mult)
qed

lemma enumeration_sum_range:
  assumes "\<forall>p\<in>set ps. 0 \<le> p \<and> p \<le> 1"
  shows "0 \<le> enumeration_sum ps j \<and> enumeration_sum ps j \<le> 1"
  using assms
proof (induction ps arbitrary: j)
  case Nil
  then show ?case by (simp add: enumeration_sum_Nil)
next
  case (Cons p ps)
  then have p: "0 \<le> p" "p \<le> 1" and ih: "\<And>j. 0 \<le> enumeration_sum ps j \<and> enumeration_sum ps j \<le> 1"
    by auto
  let ?a = "enumeration_sum ps j" and ?b = "enumeration_sum ps (j - 1)"
  have a: "0 \<le> ?a" "?a \<le> 1" and b: "0 \<le> ?b" "?b \<le> 1" using ih by auto
  have lo: "0 \<le> (1 - p) * ?a + p * ?b" using p a b by simp
  have "(1 - p) * ?a \<le> (1 - p) * 1" using p a by (intro mult_left_mono) auto
  moreover have "p * ?b \<le> p * 1" using p b by (intro mult_left_mono) auto
  ultimately have hi: "(1 - p) * ?a + p * ?b \<le> 1" by simp
  show ?case using lo hi by (simp add: enumeration_sum_Cons)
qed

lemma enumeration_sum_low: "j \<le> 0 \<Longrightarrow> enumeration_sum ps j = 1"
proof -
  assume "j \<le> 0"
  then have "\<And>bs. j \<le> n_assigned bs" using n_assigned_bounds(1) order_trans by blast
  then show ?thesis by (simp add: enumeration_sum_def weight_total)
qed

lemma enumeration_sum_high: "int (length ps) < j \<Longrightarrow> enumeration_sum ps j = 0"
proof -
  assume j: "int (length ps) < j"
  have "\<not> j \<le> n_assigned bs" if "bs \<in> set (assignments (length ps))" for bs
    using that j n_assigned_bounds(2) [of bs] by (simp add: assignments_facts(3))
  then have "enumeration_sum ps j = sum_list (map (\<lambda>bs. 0::real) (assignments (length ps)))"
    unfolding enumeration_sum_def by (intro arg_cong [where f = sum_list] map_cong refl) auto
  then show ?thesis by simp
qed

subsection \<open>The mask loop of \<open>_posterior_mdr_prob\<close>\<close>

text \<open>The bits \<open>i, i + 1, ...\<close> of a mask, one for each of \<open>n\<close> missing classes.\<close>

lemma assign_loop_bits:
  "assign_loop mp msk (enumerate i cs) (kk, pr)
     = (kk + n_assigned (map (\<lambda>j. odd (msk div 2 ^ j)) [i..<i + length cs]),
        pr * weight (map (prior_get mp) cs) (map (\<lambda>j. odd (msk div 2 ^ j)) [i..<i + length cs]))"
proof (induction cs arbitrary: i kk pr)
  case Nil
  then show ?case by (simp add: n_assigned_def)
next
  case (Cons c cs)
  have upt: "[i..<i + length (c # cs)] = i # [Suc i..<Suc i + length cs]"
    by (simp add: upt_rec)
  show ?case
    unfolding upt by (simp add: Cons.IH Let_def odd_iff_mod_2_eq_one)
qed

lemma bits_Suc:
  fixes msk :: nat
  shows "map (\<lambda>j. odd (msk div 2 ^ j)) [0..<Suc m] = odd msk # map (\<lambda>j. odd ((msk div 2) div 2 ^ j)) [0..<m]"
proof -
  have "msk div 2 ^ Suc j = (msk div 2) div 2 ^ j" for j and msk :: nat
    by (simp add: div_mult2_eq)
  then show ?thesis
    by (simp only: map_upt_Suc) simp
qed

lemma sum_even_odd:
  fixes f :: "nat \<Rightarrow> real"
  shows "(\<Sum>k<2 * n. f k) = (\<Sum>k<n. f (2 * k) + f (2 * k + 1))"
  by (induction n) simp_all

lemma mask_sum_assignments:
  fixes h :: "bool list \<Rightarrow> real"
  shows "(\<Sum>msk<(2::nat) ^ m. h (map (\<lambda>j. odd (msk div 2 ^ j)) [0..<m])) = (\<Sum>bs\<leftarrow>assignments m. h bs)"
proof (induction m arbitrary: h)
  case 0
  have "{..<1::nat} = {0}" by auto
  then show ?case by (simp add: assignments_def)
next
  case (Suc m)
  let ?bits = "\<lambda>msk::nat. map (\<lambda>j. odd (msk div 2 ^ j)) [0..<m]"
  have "(\<Sum>msk<(2::nat) ^ Suc m. h (map (\<lambda>j. odd (msk div 2 ^ j)) [0..<Suc m]))
          = (\<Sum>msk<(2::nat) * 2 ^ m. h (odd msk # ?bits (msk div 2)))"
    by (simp only: bits_Suc power_Suc)
  also have "\<dots> = (\<Sum>k<(2::nat) ^ m. h (False # ?bits k) + h (True # ?bits k))"
    by (simp add: sum_even_odd)
  also have "\<dots> = (\<Sum>bs\<leftarrow>assignments m. h (False # bs) + h (True # bs))"
    by (rule Suc.IH [of "\<lambda>bs. h (False # bs) + h (True # bs)"])
  finally show ?case by (simp add: assignments_Suc_sum)
qed

lemma fold_accumulate:
  fixes g :: "nat \<Rightarrow> int \<times> real"
  shows "fold (\<lambda>msk p. let (kk, pr) = g msk in if kk \<ge> t then p + pr else p) xs a
           = a + (\<Sum>msk\<leftarrow>xs. if fst (g msk) \<ge> t then snd (g msk) else 0)"
  by (induction xs arbitrary: a) (auto simp: Let_def split: prod.splits)

lemma mask_loop_enumeration:
  "fold (\<lambda>msk p. let (kk, pr) = assign_loop mp msk (enumerate 0 missing) (kp, 1)
                 in if kk \<ge> t then p + pr else p) [0..<2 ^ length missing] 0
     = enumeration_sum (map (prior_get mp) missing) (t - kp)"
proof -
  let ?ps = "map (prior_get mp) missing"
  let ?h = "\<lambda>bs. if t \<le> kp + n_assigned bs then weight ?ps bs else 0"
  have "fold (\<lambda>msk p. let (kk, pr) = assign_loop mp msk (enumerate 0 missing) (kp, 1)
                 in if kk \<ge> t then p + pr else p) [0..<2 ^ length missing] 0
          = (\<Sum>msk\<leftarrow>[0..<2 ^ length missing]. ?h (map (\<lambda>j. odd (msk div 2 ^ j)) [0..<length missing]))"
    by (simp only: fold_accumulate) (simp add: assign_loop_bits cong: if_cong)
  also have "\<dots> = (\<Sum>msk<(2::nat) ^ length missing. ?h (map (\<lambda>j. odd (msk div 2 ^ j)) [0..<length missing]))"
    by (simp add: interv_sum_list_conv_sum_set_nat atLeast0LessThan)
  also have "\<dots> = (\<Sum>bs\<leftarrow>assignments (length missing). ?h bs)"
    by (rule mask_sum_assignments)
  also have "\<dots> = enumeration_sum ?ps (t - kp)"
    unfolding enumeration_sum_def
    by (intro arg_cong [where f = sum_list] map_cong) (auto simp: algebra_simps)
  finally show ?thesis .
qed


lemma posterior_mdr_prob_cases:
  assumes "\<forall>c\<in>set (missing_cols cols r). 0 \<le> prior_get mp c \<and> prior_get mp c \<le> 1"
  shows "posterior_mdr_prob cols r t mp
           = enumeration_sum (map (prior_get mp) (missing_cols cols r)) (t - known_pos cols r)"
proof -
  let ?ps = "map (prior_get mp) (missing_cols cols r)"
  let ?kp = "known_pos cols r"
  have rng: "0 \<le> enumeration_sum ?ps (t - ?kp)" "enumeration_sum ?ps (t - ?kp) \<le> 1"
    using enumeration_sum_range [of ?ps "t - ?kp"] assms by auto
  show ?thesis
  proof (cases "?kp \<ge> t")
    case True
    then show ?thesis by (simp add: posterior_mdr_prob_def enumeration_sum_low)
  next
    case False
    show ?thesis
    proof (cases "?kp + int (length (missing_cols cols r)) < t")
      case True
      then have "int (length ?ps) < t - ?kp" by simp
      then show ?thesis using False True
        by (simp add: posterior_mdr_prob_def enumeration_sum_high)
    next
      case ge: False
      show ?thesis using False ge rng
        by (simp add: posterior_mdr_prob_def Let_def mask_loop_enumeration [unfolded Let_def])
    qed
  qed
qed

text \<open>
  Claim C5. For per-class priors that are probabilities, the posterior MDR probability of
  a row is 1 if the count of known-resistant classes meets the threshold, 0 if that count
  plus the number of missing classes stays below it, and otherwise the sum, over all
  \<open>2^m\<close> assignments of the \<open>m\<close> missing classes, of the product of the priors
  (assigned 1) and complements (assigned 0), restricted to the assignments whose
  resistant count reaches the threshold.
\<close>

theorem posterior_mdr_prob_spec:
  assumes "\<forall>c\<in>set (missing_cols cols r). 0 \<le> prior_get mp c \<and> prior_get mp c \<le> 1"
  shows "posterior_mdr_prob cols r t mp =
      (let kp = known_pos cols r;
           missing = missing_cols cols r;
           priors = map (prior_get mp) missing
       in if kp \<ge> t then 1
          else if kp + int (length missing) < t then 0
          else (\<Sum>bs\<leftarrow>assignments (length missing).
                  if kp + n_assigned bs \<ge> t then weight priors bs else 0))
    \<and> length (assignments (length (missing_cols cols r))) = 2 ^ length (missing_cols cols r)
    \<and> distinct (assignments (length (missing_cols cols r)))
    \<and> set (assignments (length (missing_cols cols r)))
         = {bs. length bs = length (missing_cols cols r)}"
proof -
  let ?ps = "map (prior_get mp) (missing_cols cols r)"
  let ?kp = "known_pos cols r"
  have sum_eq: "enumeration_sum ?ps (t - ?kp)
      = (\<Sum>bs\<leftarrow>assignments (length (missing_cols cols r)).
            if ?kp + n_assigned bs \<ge> t then weight ?ps bs else 0)"
    unfolding enumeration_sum_def
    by (intro arg_cong [where f = sum_list] map_cong) (auto simp: algebra_simps)
  have low: "?kp \<ge> t \<Longrightarrow> enumeration_sum ?ps (t - ?kp) = 1"
    by (simp add: enumeration_sum_low)
  have high: "?kp + int (length (missing_cols cols r)) < t \<Longrightarrow> enumeration_sum ?ps (t - ?kp) = 0"
    by (simp add: enumeration_sum_high)
  have "posterior_mdr_prob cols r t mp = enumeration_sum ?ps (t - ?kp)"
    using posterior_mdr_prob_cases [OF assms] .
  then show ?thesis
    using low high sum_eq by (simp add: Let_def assignments_facts)
qed

theorem posterior_mdr_prob_spec_witness:
  "prior_get (Some example_prior) ''Tet'' = 3/10
   \<and> prior_get (Some example_prior) ''Mac'' = 1/2
   \<and> known_pos [''Pen'', ''Tet'', ''Mac''] example_row = 1
   \<and> missing_cols [''Pen'', ''Tet'', ''Mac''] example_row = [''Tet'', ''Mac'']
   \<and> posterior_mdr_prob [''Pen'', ''Tet'', ''Mac''] example_row 2 (Some example_prior) = 13/20"
proof -
  have m: "missing_cols [''Pen'', ''Tet'', ''Mac''] example_row = [''Tet'', ''Mac'']"
    by (simp add: missing_cols_def example_row_def row_of_def)
  have k: "known_pos [''Pen'', ''Tet'', ''Mac''] example_row = 1"
    by (simp add: known_pos_def example_row_def row_of_def)
  have pr: "prior_get (Some example_prior) ''Tet'' = 3/10" "prior_get (Some example_prior) ''Mac'' = 1/2"
    by (simp_all add: prior_get_def example_prior_def)
  have h: "\<forall>c\<in>set (missing_cols [''Pen'', ''Tet'', ''Mac''] example_row).
       0 \<le> prior_get (Some example_prior) c \<and> prior_get (Some example_prior) c \<le> 1"
    by (simp add: m pr)
  have a: "assignments (Suc (Suc 0)) = [[False, False], [True, False], [False, True], [True, True]]"
    by (simp add: assignments_def)
  show ?thesis
    using posterior_mdr_prob_spec [OF h, of 2]
    by (simp add: h m k pr a n_assigned_def)
qed

subsection \<open>The Bernoulli convolution of \<open>mdr_probability\<close>\<close>














subsection \<open>Hyperedge extraction\<close>
















subsection \<open>Rounding and the Bayesian prevalence\<close>












subsection \<open>Hypergraph centrality\<close>

lemma py_round_zero: "py_round 0 n = 0"
  by (simp add: py_round_def round_half_even_def)

text \<open>
  Claim C8 at a universe of two classes and no hyperedge: every class has its row of
  zeros, and none of the three normalised columns exists, where the claim asks for
  normalised values 0.
\<close>

theorem hypergraph_centrality_zero_max:
  "hypergraph_centrality [] [''Pen'', ''Tet'']
     = \<lparr>crows = [\<lparr>Class = ''Pen'', Degree = 0, Weighted_Degree = 0, Size_Weighted = 0\<rparr>,
                 \<lparr>Class = ''Tet'', Degree = 0, Weighted_Degree = 0, Size_Weighted = 0\<rparr>],
        Degree_Norm = None, Weighted_Degree_Norm = None, Size_Weighted_Norm = None\<rparr>"
  by (simp add: hypergraph_centrality_def norm_column_def py_round_zero Let_def)

subsection \<open>The conditional-independence test\<close>



lemma ci_test_stratified:
  assumes "S \<noteq> []"
  shows "ci_test sp df i j S alpha =
     (if snd (cmh_sums df i j S) \<le> 0 then Inr (True, 1)
      else Inr (1 - chi2_cdf sp ((fst (cmh_sums df i j S))\<^sup>2 / snd (cmh_sums df i j S)) > alpha,
                1 - chi2_cdf sp ((fst (cmh_sums df i j S))\<^sup>2 / snd (cmh_sums df i j S))))"
  using assms by (cases "cmh_sums df i j S") (simp add: ci_test_def Let_def)








subsection \<open>A run of the skeleton learner\<close>



lemma coresist_crosstab:
  assumes "i \<in> {''A'', ''B'', ''C''}" "j \<in> {''A'', ''B'', ''C''}"
  shows "crosstab coresist_rows i j = [[4, 0], [0, 4]]"
  using assms
  by (auto simp: coresist_rows_def row_of_def crosstab_def obs_pairs_def numeral_eq_Suc Let_def)

lemma coresist_strata:
  assumes "i \<in> {''A'', ''B'', ''C''}" "j \<in> {''A'', ''B'', ''C''}" "k \<in> {''A'', ''B'', ''C''}"
  shows "map (\<lambda>st. crosstab st i j) (strata coresist_rows [k]) = [[[4]], [[4]]]"
  using assms
  by (auto simp: strata_def coresist_rows_def row_of_def crosstab_def obs_pairs_def
      numeral_eq_Suc Let_def)

lemma coresist_ci_unconditional:
  assumes "i \<in> {''A'', ''B'', ''C''}" "j \<in> {''A'', ''B'', ''C''}"
    and "fisher_exact sp [[4, 0], [0, 4]] = 1/35"
  shows "ci_test sp coresist_rows i j [] (1/20) = Inr (False, 1/35)"
  by (simp add: ci_test_def coresist_crosstab [OF assms(1,2)] expected_2x2_def assms(3) Let_def)

lemma coresist_ci_single:
  assumes "i \<in> {''A'', ''B'', ''C''}" "j \<in> {''A'', ''B'', ''C''}" "k \<in> {''A'', ''B'', ''C''}"
  shows "ci_test sp coresist_rows i j [k] alpha = Inr (True, 1)"
  by (simp add: ci_test_stratified cmh_sums_def coresist_strata [OF assms] cmh_step_def)

lemma py_round_examples: "py_round (1/35) 4 = 286/10000" "py_round 1 4 = 1"
  by (simp_all add: py_round_def round_half_even_def Let_def)








lemma scipy_example_fisher: "fisher_exact scipy_example [[4, 0], [0, 4]] = 1/35"
  by (simp add: scipy_example_def)

lemma cond_pool_endpoint:
  assumes "v \<in> set (neighbors G u)" "\<And>xs. set (set_iter xs) = set xs"
  shows "v \<in> set (cond_pool set_iter G u v)"
  using assms by (simp add: cond_pool_def)



lemma complete_graph_AB: "complete_graph [''A'', ''B''] = [(''A'', [''B'']), (''B'', [''A''])]"
  by (simp add: complete_graph_def numeral_2_eq_2 add_node_def add_edge_def add_nbr_def)

lemma coresist_run_AB:
  assumes "fisher_exact sp [[4, 0], [0, 4]] = 1/35" and "set_iter [''B''] = [''B'']"
  shows "pc_skeleton sp set_iter coresist_rows [''A'', ''B''] (1/20) 1
       = Inr (\<lparr>nodes = [''A'', ''B''], arcs = []\<rparr>,
              [\<lparr>Node1 = ''A'', Node2 = ''B'', Removed = False, Cond_Set = dash_sign,
                 Pval = 286/10000, Cond_Size = - 1\<rparr>,
               removal_row ''A'' ''B'' ''B''])"
proof -
  have sizes: "[0..<nat (1 + 1)] = [0, Suc 0]" by (simp add: upt_rec)
  have e: "edges [(''A'', [''B'']), (''B'', [''A''])] = [(''A'', ''B'')]"
    "edges [(''A'', []), (''B'', [])] = []"
    by (simp_all add: edges_def)
  have p0: "size_phase sp set_iter coresist_rows (1/20) 0 ([(''A'', [''B'']), (''B'', [''A''])], Map.empty, [])
      = Inr ([(''A'', [''B'']), (''B'', [''A''])], Map.empty,
             [\<lparr>Node1 = ''A'', Node2 = ''B'', Removed = False, Cond_Set = dash_sign,
                Pval = 286/10000, Cond_Size = - 1\<rparr>])"
    by (simp add: size_phase_def e scan_edge_def
        coresist_ci_unconditional [OF _ _ assms(1)] py_round_examples Let_def)
  have p1: "size_phase sp set_iter coresist_rows (1/20) (Suc 0)
        ([(''A'', [''B'']), (''B'', [''A''])], Map.empty, ds)
      = Inr ([(''A'', []), (''B'', [])],
             [(''A'', ''B'') \<mapsto> [''B''], (''B'', ''A'') \<mapsto> [''B'']],
             ds @ [removal_row ''A'' ''B'' ''B''])" for ds
    by (simp add: size_phase_def e scan_edge_def cond_pool_def neighbors_def assms(2)
        coresist_ci_single py_round_examples has_edge_def remove_edge_def removal_row_def Let_def)
  have o: "orient [(''A'', []), (''B'', [])] sep k as = as" for sep k as
    by (simp add: orient_def neighbors_def numeral_2_eq_2)
  show ?thesis
    unfolding pc_skeleton_def sizes complete_graph_AB
    by (simp add: p0 p1 e o Let_def)
qed

text \<open>
  Claim C1 at a failing input: two identical indicator columns \<open>A\<close> and \<open>B\<close>, the
  default \<open>\<alpha> = 0.05\<close> and conditioning sets up to size 1. The pool of the edge
  \<open>(A, B)\<close> is \<open>{B}\<close>, not the empty set \<open>(N(A) \<union> N(B)) - {A, B}\<close>; at size 1 the
  subset \<open>(B)\<close> is tested, and the edge is removed with the recorded conditioning set
  \<open>B\<close>, its own endpoint. In general the pool of a present edge \<open>(u, v)\<close>
  contains \<open>v\<close>.
\<close>

theorem pc_skeleton_pool_contains_endpoint:
  assumes "fisher_exact sp [[4, 0], [0, 4]] = 1/35" and "set_iter [''B''] = [''B'']"
  shows "cond_pool set_iter (complete_graph [''A'', ''B'']) ''A'' ''B'' = [''B'']
    \<and> pc_skeleton sp set_iter coresist_rows [''A'', ''B''] (1/20) 1
       = Inr (\<lparr>nodes = [''A'', ''B''], arcs = []\<rparr>,
              [\<lparr>Node1 = ''A'', Node2 = ''B'', Removed = False, Cond_Set = dash_sign,
                 Pval = 286/10000, Cond_Size = - 1\<rparr>,
               \<lparr>Node1 = ''A'', Node2 = ''B'', Removed = True, Cond_Set = ''B'',
                 Pval = 1, Cond_Size = 1\<rparr>])
    \<and> (v \<in> set (neighbors G u) \<and> (\<forall>xs. set (f xs) = set xs) \<longrightarrow> v \<in> set (cond_pool f G u v))"
  using coresist_run_AB [of sp set_iter, OF assms] assms(2) cond_pool_endpoint [of v G u f]
  by (simp add: complete_graph_AB cond_pool_def neighbors_def removal_row_def)

theorem pc_skeleton_pool_contains_endpoint_witness:
  "fisher_exact scipy_example [[4, 0], [0, 4]] = 1/35
   \<and> id [''B''] = [''B'']
   \<and> ''B'' \<in> set (neighbors (complete_graph [''A'', ''B'']) ''A'')
   \<and> ''B'' \<in> set (cond_pool id (complete_graph [''A'', ''B'']) ''A'' ''B'')
   \<and> pc_skeleton scipy_example id coresist_rows [''A'', ''B''] (1/20) 1
       = Inr (\<lparr>nodes = [''A'', ''B''], arcs = []\<rparr>,
              [\<lparr>Node1 = ''A'', Node2 = ''B'', Removed = False, Cond_Set = dash_sign,
                 Pval = 286/10000, Cond_Size = - 1\<rparr>,
               \<lparr>Node1 = ''A'', Node2 = ''B'', Removed = True, Cond_Set = ''B'',
                 Pval = 1, Cond_Size = 1\<rparr>])"
  using pc_skeleton_pool_contains_endpoint [OF scipy_example_fisher, of id "''B''"
      "complete_graph [''A'', ''B'']" "''A''" id]
  by (simp add: scipy_example_fisher complete_graph_AB neighbors_def)



end
